theory Spec2Isabelle
  imports Main "HOL-Library.Word"
begin

section \<open>The JNI environment bridge of lib/fb/jni/Environment.cpp\<close>

text \<open>
  The source file keeps two pieces of process state, the registered virtual machine
  \<open>g_vm\<close> and the thread-local environment pointer \<open>g_env\<close>, and defines
  \<open>Environment::current\<close> together with the helper class \<open>JThreadScopeSupport\<close>
  (\<open>runStdFunction\<close>, \<open>runStdFunctionImpl\<close>, \<open>OnLoad\<close>).

  The embedding is sequential state passing: every operation takes the calling thread and
  the state of the process and returns the new state. A pointer that may be null is an
  \<open>option\<close> (\<open>None\<close> is \<open>nullptr\<close>). An operation that can throw, abort or block
  returns \<open>world failure + world\<close>; \<open>Inl\<close> says how the call ended without returning.
  The Java virtual machine is the environment of the code: its attachment table, its class
  table and its table of registered natives are fields of the state.
\<close>

subsection \<open>Values\<close>

type_synonym tid = nat
type_synonym JNIEnv = nat
type_synonym JavaVM = nat
type_synonym jlong = "64 word"
type_synonym method_id = "string \<times> string \<times> string"

datatype jint = JNI_OK | JNI_EDETACHED

text \<open>
  How a call ends when it does not return. A C++ exception leaves the process running: a
  handler further up the stack may catch it, so it carries the state \<open>'w\<close> at the throw.
  These are \<open>UnsatisfiedLink\<close> (the Java error of a native stub nothing is bound to),
  \<open>BadFunctionCall\<close> (\<open>std::bad_function_call\<close>) and \<open>ClosureThrew\<close> (whatever the
  body of a closure throws). The others carry no state, the process does not go on:
  \<open>WiringFailure\<close> and \<open>DoubleRegistration\<close> (by the spec's section 7 fatal, not to be
  retried), \<open>DanglingToken\<close> (undefined behaviour) and \<open>NeverReturns\<close> (a closure that
  blocks its caller for good).
\<close>

datatype 'w failure =
    WiringFailure
  | UnsatisfiedLink 'w
  | DoubleRegistration
  | DanglingToken
  | BadFunctionCall 'w
  | ClosureThrew nat 'w
  | NeverReturns

text \<open>The state in which a handler that catches the failure goes on, if there is one.\<close>

primrec handler_state :: "'w failure \<Rightarrow> 'w option" where
  "handler_state WiringFailure = None"
| "handler_state (UnsatisfiedLink w) = Some w"
| "handler_state DoubleRegistration = None"
| "handler_state DanglingToken = None"
| "handler_state (BadFunctionCall w) = Some w"
| "handler_state (ClosureThrew x w) = Some w"
| "handler_state NeverReturns = None"

text \<open>A call failed fatally: it was ended, and by nothing a handler can catch.\<close>

definition fatal :: "'w failure + 'w \<Rightarrow> bool" where
  "fatal r =
     (case r of
        Inl f \<Rightarrow> f \<noteq> NeverReturns \<and> handler_state f = None
      | Inr w \<Rightarrow> False)"

text \<open>The only native method the file registers.\<close>

datatype native_fn = RunStdFunctionImpl

text \<open>
  A \<open>std::function<void()>\<close> is code the model cannot see. It is represented by what it
  can do to this module: return, change the state it captured, call
  \<open>Environment::current()\<close> and go on with the pointer it got back, throw an exception
  (identified by a number), or never return. \<open>g_vm\<close> and \<open>g_env\<close> live in an
  anonymous namespace, so a closure reaches them through \<open>current()\<close> only. A
  \<open>std::function\<close> object may also be empty.
\<close>

datatype 'u closure =
    Return
  | Update "'u \<Rightarrow> 'u" "'u closure"
  | CallCurrent "JNIEnv option \<Rightarrow> 'u closure"
  | Throw nat
  | Diverge

datatype 'u std_function = EmptyFunction | Function "'u closure"

text \<open>A class of the virtual machine: its static methods and its native method stubs, each
  a name with a JNI signature.\<close>

record jclass =
  static_methods :: "(string \<times> string) list"
  native_stubs :: "(string \<times> string) list"

text \<open>
  The state. \<open>g_vm\<close>, \<open>g_env\<close> (one slot per thread) and \<open>static_method\<close> (the
  function-local \<open>static auto method\<close> of \<open>runStdFunction\<close>) are the variables of the
  file; \<open>errlog\<close> is what \<open>FBLOGE\<close> has written; \<open>heap\<close> holds the
  \<open>std::function\<close> objects by address (\<open>'p\<close> is the width of a pointer) and
  \<open>captured\<close> the state the closures share. The \<open>vm_\<close> fields are the virtual
  machine: the environment pointer of every attached thread, the pointer a thread gets when
  it is attached, whether an attachment made for a managed call ends with the call, the
  number of \<open>GetEnv\<close> queries answered, the classes and the registered natives.
  \<open>sign_extends\<close> says how the compiler widens a pointer to a wider integer.
\<close>

record (overloaded) ('p, 'u) world =
  g_vm :: "JavaVM option"
  g_env :: "tid \<Rightarrow> JNIEnv option"
  static_method :: "method_id option"
  errlog :: "string list"
  heap :: "'p word \<Rightarrow> 'u std_function option"
  captured :: "'u"
  vm_attached :: "tid \<Rightarrow> JNIEnv option"
  vm_attach_env :: "tid \<Rightarrow> JNIEnv"
  vm_scoped_attach :: bool
  vm_getenv_calls :: nat
  vm_classes :: "string \<Rightarrow> jclass option"
  vm_natives :: "method_id \<Rightarrow> native_fn option"
  sign_extends :: bool

subsection \<open>The virtual machine's query and the log\<close>

definition FBLOGE :: "string \<Rightarrow> ('p, 'u) world \<Rightarrow> ('p, 'u) world" where
  "FBLOGE msg w = w\<lparr>errlog := errlog w @ [msg]\<rparr>"

text \<open>\<open>JavaVM::GetEnv\<close>: a query. It answers with the environment pointer of an attached
  thread and with \<open>JNI_EDETACHED\<close> and a null pointer otherwise.\<close>

definition GetEnv :: "tid \<Rightarrow> ('p, 'u) world \<Rightarrow> (jint \<times> JNIEnv option) \<times> ('p, 'u) world" where
  "GetEnv t w =
     (let w1 = w\<lparr>vm_getenv_calls := Suc (vm_getenv_calls w)\<rparr>
      in case vm_attached w t of
           None \<Rightarrow> ((JNI_EDETACHED, None), w1)
         | Some e \<Rightarrow> ((JNI_OK, Some e), w1))"

subsection \<open>Environment::current\<close>

text \<open>
  Modelled from the spec: the source file stops inside the failure branch of
  \<open>Environment::current\<close>, after the \<open>FBLOGE\<close> call and the comment that follows it.
  What is missing is the end of that branch, the branch of a successful query and the
  return. The spec's section 4.1 gives them: on failure the caller gets a null handle
  (step 3), on success the handle is stored in the thread's slot and returned (step 4).
\<close>

definition current_failed :: "('p, 'u) world \<Rightarrow> JNIEnv option \<times> ('p, 'u) world" where
  "current_failed w = (None, w)"

definition current_resolved ::
  "tid \<Rightarrow> JNIEnv option \<Rightarrow> ('p, 'u) world \<Rightarrow> JNIEnv option \<times> ('p, 'u) world" where
  "current_resolved t env w = (env, w\<lparr>g_env := (g_env w)(t := env)\<rparr>)"

definition diagnostic :: string where
  "diagnostic = ''Error retrieving JNI Environment, thread is probably not attached to JVM''"

text \<open>Lines 51 to 56 of the source, then the two ends above.\<close>

definition current :: "tid \<Rightarrow> ('p, 'u) world \<Rightarrow> JNIEnv option \<times> ('p, 'u) world" where
  "current t w =
     (let env = g_env w t
      in if env = None \<and> g_vm w \<noteq> None
         then (case GetEnv t w of
                 ((rc, env1), w1) \<Rightarrow>
                   if rc \<noteq> JNI_OK
                   then current_failed (FBLOGE diagnostic w1)
                   else current_resolved t env1 w1)
         else (env, w))"

text \<open>Calling \<open>current()\<close> again and again on one thread: the pointers returned, in order,
  and the state at the end.\<close>

fun current_times ::
  "nat \<Rightarrow> tid \<Rightarrow> ('p, 'u) world \<Rightarrow> JNIEnv option list \<times> ('p, 'u) world" where
  "current_times 0 t w = ([], w)"
| "current_times (Suc n) t w =
     (case current t w of
        (env, w1) \<Rightarrow> (case current_times n t w1 of (envs, w2) \<Rightarrow> (env # envs, w2)))"

subsection \<open>Running a closure\<close>

text \<open>Running a closure on thread \<open>t\<close>: the pointers its calls of \<open>current()\<close> returned,
  in order, and how the run ended: with the state it leaves, with an exception thrown in
  the state reached so far, or not at all.\<close>

primrec run_closure ::
  "'u closure \<Rightarrow> tid \<Rightarrow> ('p, 'u) world
     \<Rightarrow> JNIEnv option list \<times> (('p, 'u) world failure + ('p, 'u) world)" where
  "run_closure Return t w = ([], Inr w)"
| "run_closure (Update f k) t w = run_closure k t (w\<lparr>captured := f (captured w)\<rparr>)"
| "run_closure (CallCurrent k) t w =
     (case current t w of
        (env, w1) \<Rightarrow> (case run_closure (k env) t w1 of (seen, r) \<Rightarrow> (env # seen, r)))"
| "run_closure (Throw x) t w = ([], Inl (ClosureThrew x w))"
| "run_closure Diverge t w = ([], Inl NeverReturns)"

text \<open>\<open>std::function::operator()\<close>: an empty function object throws, any other runs
  its closure.\<close>

definition invoke ::
  "'u std_function \<Rightarrow> tid \<Rightarrow> ('p, 'u) world \<Rightarrow> ('p, 'u) world failure + ('p, 'u) world" where
  "invoke f t w =
     (case f of
        EmptyFunction \<Rightarrow> Inl (BadFunctionCall w)
      | Function c \<Rightarrow> snd (run_closure c t w))"

subsection \<open>The callback token\<close>

text \<open>
  \<open>reinterpret_cast<jlong>(&func)\<close> widens the address to 64 bits; the standard leaves
  the widening to the implementation, which extends with zeros or with the sign bit.
  \<open>reinterpret_cast<std::function<void()>*>(ptr)\<close> keeps the low bits. The cast to
  \<open>jlong\<close> compiles only where a pointer is at most 64 bits wide.
\<close>

definition ptr_to_jlong :: "bool \<Rightarrow> 'p::len word \<Rightarrow> jlong" where
  "ptr_to_jlong sx p = (if sx then scast p else ucast p)"

definition jlong_to_ptr :: "jlong \<Rightarrow> 'p::len word" where
  "jlong_to_ptr j = ucast j"

subsection \<open>JThreadScopeSupport\<close>

definition kJavaDescriptor :: string where
  "kJavaDescriptor = ''Lcom/facebook/jni/ThreadScopeSupport;''"

text \<open>The JNI signature of \<open>void(jlong)\<close>.\<close>

definition sig_void_jlong :: string where
  "sig_void_jlong = ''(J)V''"

definition dispatch_method :: method_id where
  "dispatch_method = (kJavaDescriptor, ''runStdFunction'', sig_void_jlong)"

definition reentry_method :: method_id where
  "reentry_method = (kJavaDescriptor, ''runStdFunctionImpl'', sig_void_jlong)"

text \<open>
  Modelled from the spec: the lookup helpers \<open>javaClassStatic\<close> and
  \<open>getStaticMethod\<close> are declared in headers that are not among the sources. By the
  spec's sections 4.2 and 7 a class or method that cannot be found is a \<open>WiringFailure\<close>,
  fatal at first use: a failure no handler gets to see, and not an exception.
\<close>

definition javaClassStatic :: "('p, 'u) world \<Rightarrow> ('p, 'u) world failure + string" where
  "javaClassStatic w =
     (case vm_classes w kJavaDescriptor of
        None \<Rightarrow> Inl WiringFailure
      | Some c \<Rightarrow> Inr kJavaDescriptor)"

definition getStaticMethod ::
  "string \<Rightarrow> string \<Rightarrow> string \<Rightarrow> ('p, 'u) world \<Rightarrow> ('p, 'u) world failure + method_id" where
  "getStaticMethod cls name sg w =
     (case vm_classes w cls of
        None \<Rightarrow> Inl WiringFailure
      | Some c \<Rightarrow>
          if (name, sg) \<in> set (static_methods c) then Inr (cls, name, sg)
          else Inl WiringFailure)"

text \<open>\<open>runStdFunctionImpl\<close> (lines 36 to 38): the token is cast back to a pointer and the
  function object there is called. A token that addresses no function object is undefined
  behaviour in C++; the model reports it.\<close>

definition runStdFunctionImpl ::
  "jlong \<Rightarrow> tid \<Rightarrow> ('p::len, 'u) world \<Rightarrow> ('p, 'u) world failure + ('p, 'u) world" where
  "runStdFunctionImpl ptr t w =
     (case heap w (jlong_to_ptr ptr) of
        None \<Rightarrow> Inl DanglingToken
      | Some f \<Rightarrow> invoke f t w)"

text \<open>
  Modelled from the spec: the managed method \<open>ThreadScopeSupport.runStdFunction(long)\<close>
  is Java code. By the spec's section 4.2 (steps 1 and 4) it does nothing but call the
  registered native re-entry method with the token it was given. A native stub that
  nothing was registered for cannot be linked, which the caller sees as an exception.
\<close>

definition managed_runStdFunction ::
  "jlong \<Rightarrow> tid \<Rightarrow> ('p::len, 'u) world \<Rightarrow> ('p, 'u) world failure + ('p, 'u) world" where
  "managed_runStdFunction ptr t w =
     (case vm_natives w reentry_method of
        None \<Rightarrow> Inl (UnsatisfiedLink w)
      | Some RunStdFunctionImpl \<Rightarrow> runStdFunctionImpl ptr t w)"

text \<open>
  Modelled from the spec: calling a managed static method from native code (the call
  operator of the method reference). By the spec's section 4.2, step 3, the call attaches
  the calling thread for its duration if the thread was not attached; whether the
  attachment ends with the call is the virtual machine's policy (section 9), here the flag
  \<open>vm_scoped_attach\<close>. An exception that leaves the managed call ends it as a return
  does.
\<close>

definition attach :: "tid \<Rightarrow> ('p, 'u) world \<Rightarrow> ('p, 'u) world" where
  "attach t w =
     (if vm_attached w t = None
      then w\<lparr>vm_attached := (vm_attached w)(t := Some (vm_attach_env w t))\<rparr>
      else w)"

definition detach :: "bool \<Rightarrow> tid \<Rightarrow> ('p, 'u) world \<Rightarrow> ('p, 'u) world" where
  "detach was_detached t w =
     (if was_detached \<and> vm_scoped_attach w
      then w\<lparr>vm_attached := (vm_attached w)(t := None)\<rparr>
      else w)"

definition call_static_method ::
  "method_id \<Rightarrow> jlong \<Rightarrow> tid \<Rightarrow> ('p::len, 'u) world
     \<Rightarrow> ('p, 'u) world failure + ('p, 'u) world" where
  "call_static_method m arg t w =
     (if m \<noteq> dispatch_method then Inl WiringFailure
      else case managed_runStdFunction arg t (attach t w) of
             Inl e \<Rightarrow> Inl (map_failure (detach (vm_attached w t = None) t) e)
           | Inr w1 \<Rightarrow> Inr (detach (vm_attached w t = None) t w1))"

text \<open>\<open>runStdFunction\<close> (lines 31 to 34). \<open>func\<close> is the address of the caller's function
  object. The static \<open>method\<close> is initialised by the first call that gets that far; a
  lookup that fails leaves it unset and ends the call. Nothing in the function catches or
  checks anything: whatever ends the lookup or the managed call ends \<open>runStdFunction\<close>.\<close>

definition runStdFunction ::
  "'p::len word \<Rightarrow> tid \<Rightarrow> ('p, 'u) world \<Rightarrow> ('p, 'u) world failure + ('p, 'u) world" where
  "runStdFunction func t w =
     (case (case static_method w of
              Some m \<Rightarrow> Inr (m, w)
            | None \<Rightarrow>
                (case javaClassStatic w of
                   Inl e \<Rightarrow> Inl e
                 | Inr cls \<Rightarrow>
                     (case getStaticMethod cls ''runStdFunction'' sig_void_jlong w of
                        Inl e \<Rightarrow> Inl e
                      | Inr m \<Rightarrow> Inr (m, w\<lparr>static_method := Some m\<rparr>)))) of
        Inl e \<Rightarrow> Inl e
      | Inr (m, w1) \<Rightarrow> call_static_method m (ptr_to_jlong (sign_extends w1) func) t w1)"

text \<open>\<open>makeNativeMethod\<close> pairs the name with the signature of the function's type.\<close>

definition makeNativeMethod :: "string \<Rightarrow> native_fn \<Rightarrow> string \<times> string \<times> native_fn" where
  "makeNativeMethod name f = (name, (case f of RunStdFunctionImpl \<Rightarrow> sig_void_jlong), f)"

text \<open>
  Modelled from the spec: \<open>registerNatives\<close> is declared in a header that is not among
  the sources. By the spec's section 4.2 a native function is bound to the managed stub of
  the same name and signature, and a name or signature the class does not declare rejects
  the load.
\<close>

fun registerNatives ::
  "string \<Rightarrow> (string \<times> string \<times> native_fn) list \<Rightarrow> ('p, 'u) world
     \<Rightarrow> ('p, 'u) world failure + ('p, 'u) world" where
  "registerNatives cls [] w = Inr w"
| "registerNatives cls ((name, sg, f) # ms) w =
     (case vm_classes w cls of
        None \<Rightarrow> Inl WiringFailure
      | Some c \<Rightarrow>
          if (name, sg) \<in> set (native_stubs c)
          then registerNatives cls ms (w\<lparr>vm_natives := (vm_natives w)((cls, name, sg) := Some f)\<rparr>)
          else Inl WiringFailure)"

text \<open>\<open>OnLoad\<close> (lines 40 to 46).\<close>

definition OnLoad :: "('p, 'u) world \<Rightarrow> ('p, 'u) world failure + ('p, 'u) world" where
  "OnLoad w =
     (case javaClassStatic w of
        Inl e \<Rightarrow> Inl e
      | Inr cls \<Rightarrow>
          registerNatives cls [makeNativeMethod ''runStdFunctionImpl'' RunStdFunctionImpl] w)"

subsection \<open>What the virtual machine has to offer\<close>

text \<open>The class of \<open>kJavaDescriptor\<close> exists and declares the static dispatch method,
  respectively the native stub, with the name and signature the file asks for.\<close>

definition dispatch_resolvable :: "('p, 'u) world \<Rightarrow> bool" where
  "dispatch_resolvable w =
     (case vm_classes w kJavaDescriptor of
        None \<Rightarrow> False
      | Some c \<Rightarrow> (''runStdFunction'', sig_void_jlong) \<in> set (static_methods c))"

definition reentry_declared :: "('p, 'u) world \<Rightarrow> bool" where
  "reentry_declared w =
     (case vm_classes w kJavaDescriptor of
        None \<Rightarrow> False
      | Some c \<Rightarrow> (''runStdFunctionImpl'', sig_void_jlong) \<in> set (native_stubs c))"

text \<open>The bridge is wired: the static \<open>method\<close> is unset and can be resolved, or it
  holds the dispatch method; and the native re-entry function is registered.\<close>

definition wired :: "('p, 'u) world \<Rightarrow> bool" where
  "wired w =
     ((case static_method w of
         None \<Rightarrow> dispatch_resolvable w
       | Some m \<Rightarrow> m = dispatch_method)
      \<and> vm_natives w reentry_method = Some RunStdFunctionImpl)"

subsection \<open>Registering the virtual machine\<close>

text \<open>
  Modelled from the spec: the function that assigns \<open>g_vm\<close> is not among the sources
  (the file declares the variable on line 25 and stops on line 56). By the spec's section
  4.1 \<open>registerVM\<close> publishes the handle, is idempotent when called again with the same
  handle, and fails when called again with a different one.
\<close>

definition registerVM ::
  "JavaVM \<Rightarrow> ('p, 'u) world \<Rightarrow> ('p, 'u) world failure + ('p, 'u) world" where
  "registerVM vm w =
     (case g_vm w of
        None \<Rightarrow> Inr (w\<lparr>g_vm := Some vm\<rparr>)
      | Some vm0 \<Rightarrow> if vm0 = vm then Inr w else Inl DoubleRegistration)"

text \<open>The operations of the module, as a caller sees them, and a run of several.\<close>

datatype 'a api_call =
    RegisterVM JavaVM
  | Current tid
  | RunStdFunction 'a tid
  | Load

fun api_step ::
  "'p::len word api_call \<Rightarrow> ('p, 'u) world \<Rightarrow> ('p, 'u) world failure + ('p, 'u) world" where
  "api_step (RegisterVM vm) w = registerVM vm w"
| "api_step (Current t) w = Inr (snd (current t w))"
| "api_step (RunStdFunction func t) w = runStdFunction func t w"
| "api_step Load w = OnLoad w"

fun api_run ::
  "'p::len word api_call list \<Rightarrow> ('p, 'u) world
     \<Rightarrow> ('p, 'u) world failure + ('p, 'u) world" where
  "api_run [] w = Inr w"
| "api_run (c # cs) w = (case api_step c w of Inl e \<Rightarrow> Inl e | Inr w1 \<Rightarrow> api_run cs w1)"

subsection \<open>A concrete process\<close>

text \<open>
  A 32-bit process used to run the definitions: one class with the managed dispatch
  method and the native stub, one thread-scoped virtual machine that hands thread \<open>t\<close>
  the environment pointer \<open>100 + t\<close>, and one function object at address
  \<open>0xBEEF0000\<close> (its top bit is set, so sign extension shows). The function object is
  the closure of the spec's property P3 with one addition: it calls \<open>current()\<close>,
  counts its run and notes the pointer it got.
\<close>

definition counting_closure :: "(nat \<times> JNIEnv option list) closure" where
  "counting_closure =
     CallCurrent (\<lambda>env. Update (\<lambda>(n, seen). (Suc n, seen @ [env])) Return)"

definition support_class :: jclass where
  "support_class =
     \<lparr>static_methods = [(''runStdFunction'', ''(J)V'')],
      native_stubs = [(''runStdFunctionImpl'', ''(J)V'')]\<rparr>"

definition fresh_process :: "(32, nat \<times> JNIEnv option list) world" where
  "fresh_process =
     \<lparr>g_vm = None,
      g_env = (\<lambda>t. None),
      static_method = None,
      errlog = [],
      heap = (\<lambda>a. if a = 0xBEEF0000 then Some (Function counting_closure) else None),
      captured = (0, []),
      vm_attached = (\<lambda>t. None),
      vm_attach_env = (\<lambda>t. 100 + t),
      vm_scoped_attach = True,
      vm_getenv_calls = 0,
      vm_classes = (\<lambda>d. if d = kJavaDescriptor then Some support_class else None),
      vm_natives = (\<lambda>m. None),
      sign_extends = True\<rparr>"

text \<open>The same process after \<open>OnLoad\<close>, after \<open>registerVM\<close>, and with thread 0
  attached by its owner.\<close>

definition loaded_process :: "(32, nat \<times> JNIEnv option list) world" where
  "loaded_process =
     fresh_process\<lparr>vm_natives :=
       (\<lambda>m. if m = reentry_method then Some RunStdFunctionImpl else None)\<rparr>"

definition registered_process :: "(32, nat \<times> JNIEnv option list) world" where
  "registered_process = loaded_process\<lparr>g_vm := Some 7\<rparr>"

definition attached_process :: "(32, nat \<times> JNIEnv option list) world" where
  "attached_process =
     registered_process\<lparr>vm_attached := (\<lambda>t. if t = 0 then Some 100 else None)\<rparr>"

text \<open>The registered process with another function object at the address: its closure
  does the same and then throws.\<close>

definition throwing_closure :: "(nat \<times> JNIEnv option list) closure" where
  "throwing_closure =
     CallCurrent (\<lambda>env. Update (\<lambda>(n, seen). (Suc n, seen @ [env])) (Throw 42))"

definition throwing_process :: "(32, nat \<times> JNIEnv option list) world" where
  "throwing_process =
     registered_process\<lparr>heap :=
       (\<lambda>a. if a = 0xBEEF0000 then Some (Function throwing_closure) else None)\<rparr>"

text \<open>Processes whose class is missing, or declares the native stub under another
  signature or another name.\<close>

definition classless_process :: "(32, nat \<times> JNIEnv option list) world" where
  "classless_process = fresh_process\<lparr>vm_classes := (\<lambda>d. None)\<rparr>"

definition wrong_signature_process :: "(32, nat \<times> JNIEnv option list) world" where
  "wrong_signature_process =
     fresh_process\<lparr>vm_classes :=
       (\<lambda>d. if d = kJavaDescriptor
            then Some (support_class\<lparr>native_stubs := [(''runStdFunctionImpl'', ''(I)V'')]\<rparr>)
            else None)\<rparr>"

definition wrong_name_process :: "(32, nat \<times> JNIEnv option list) world" where
  "wrong_name_process =
     fresh_process\<lparr>vm_classes :=
       (\<lambda>d. if d = kJavaDescriptor
            then Some (support_class\<lparr>native_stubs := [(''runStdFunction'', ''(J)V'')]\<rparr>)
            else None)\<rparr>"

section \<open>Properties\<close>

subsection \<open>The token\<close>

lemma jlong_to_ptr_inverse:
  fixes p :: "'p::len word"
  assumes "LENGTH('p) \<le> 64"
  shows "jlong_to_ptr (ptr_to_jlong sx p) = p"
proof (cases sx)
  case False
  have "(ucast (ucast p :: 64 word) :: 'p word) = p"
    using assms by (intro bit_word_eqI) (auto simp add: bit_ucast_iff)
  with False show ?thesis
    by (simp add: jlong_to_ptr_def ptr_to_jlong_def)
next
  case True
  have "(ucast (scast p :: 64 word) :: 'p word) = p"
  proof (rule bit_word_eqI)
    fix n
    assume n: "n < LENGTH('p)"
    have "LENGTH('p) - Suc 0 \<le> n \<Longrightarrow> n = LENGTH('p) - Suc 0"
      using n by arith
    then show "bit (ucast (scast p :: 64 word) :: 'p word) n = bit p n"
      using assms n by (auto simp add: bit_ucast_iff bit_signed_iff min_def not_le)
  qed
  with True show ?thesis
    by (simp add: jlong_to_ptr_def ptr_to_jlong_def)
qed



subsection \<open>Environment::current, case by case\<close>

lemma current_cached:
  "g_env w t = Some e \<Longrightarrow> current t w = (Some e, w)"
  by (simp add: current_def)

lemma current_unregistered:
  "g_env w t = None \<Longrightarrow> g_vm w = None \<Longrightarrow> current t w = (None, w)"
  by (simp add: current_def)

lemma current_detached:
  "g_env w t = None \<Longrightarrow> g_vm w = Some vm \<Longrightarrow> vm_attached w t = None \<Longrightarrow>
   current t w =
     (None, w\<lparr>errlog := errlog w @ [diagnostic], vm_getenv_calls := Suc (vm_getenv_calls w)\<rparr>)"
  by (simp add: current_def GetEnv_def current_failed_def FBLOGE_def)

lemma current_attached:
  "g_env w t = None \<Longrightarrow> g_vm w = Some vm \<Longrightarrow> vm_attached w t = Some e \<Longrightarrow>
   current t w =
     (Some e, w\<lparr>g_env := (g_env w)(t := Some e), vm_getenv_calls := Suc (vm_getenv_calls w)\<rparr>)"
  by (simp add: current_def GetEnv_def current_resolved_def)

lemma current_cases:
  obtains (cached) e where "g_env w t = Some e" and "current t w = (Some e, w)"
  | (unregistered) "g_env w t = None" and "g_vm w = None" and "current t w = (None, w)"
  | (detached) vm where "g_env w t = None" and "g_vm w = Some vm" and "vm_attached w t = None"
      and "current t w =
        (None, w\<lparr>errlog := errlog w @ [diagnostic], vm_getenv_calls := Suc (vm_getenv_calls w)\<rparr>)"
  | (attached) vm e where "g_env w t = None" and "g_vm w = Some vm" and "vm_attached w t = Some e"
      and "current t w =
        (Some e, w\<lparr>g_env := (g_env w)(t := Some e), vm_getenv_calls := Suc (vm_getenv_calls w)\<rparr>)"
proof (cases "g_env w t")
  case (Some e)
  then show ?thesis using cached current_cached by blast
next
  case None
  note env = this
  show ?thesis
  proof (cases "g_vm w")
    case None
    with env show ?thesis using unregistered current_unregistered by blast
  next
    case (Some vm)
    note vm = this
    show ?thesis
    proof (cases "vm_attached w t")
      case None
      with env vm show ?thesis using detached current_detached by blast
    next
      case (Some e)
      with env vm show ?thesis using attached current_attached by blast
    qed
  qed
qed

text \<open>What a call of \<open>current()\<close> leaves alone.\<close>

lemma current_frame:
  "g_vm (snd (current t w)) = g_vm w"
  "vm_attached (snd (current t w)) = vm_attached w"
  "heap (snd (current t w)) = heap w"
  "static_method (snd (current t w)) = static_method w"
  "vm_natives (snd (current t w)) = vm_natives w"
  "vm_classes (snd (current t w)) = vm_classes w"
  "vm_scoped_attach (snd (current t w)) = vm_scoped_attach w"
  "captured (snd (current t w)) = captured w"
  by (cases t w rule: current_cases; simp)+

lemma current_times_cached:
  "g_env w t = Some e \<Longrightarrow> current_times n t w = (replicate n (Some e), w)"
  by (induction n) (simp_all add: current_cached)

lemma current_Some_cached:
  "current t w = (Some e, w1) \<Longrightarrow> g_env w1 t = Some e"
  by (cases t w rule: current_cases) auto

text \<open>
  C2, as the code has it. On a thread with an empty slot, when the virtual machine was
  never registered or the thread is not attached, \<open>current()\<close> returns the null pointer
  (a resolved handle is never null), attaches nothing and stores nothing in the slot. The
  diagnostic is written when the query was made and failed; when \<open>g_vm\<close> is null no
  query is made and nothing is written.
\<close>

theorem current_not_attached:
  assumes "g_env w t = None" and "g_vm w = None \<or> vm_attached w t = None"
  shows "fst (current t w) = None
    \<and> vm_attached (snd (current t w)) = vm_attached w
    \<and> g_env (snd (current t w)) = g_env w
    \<and> errlog (snd (current t w)) = (if g_vm w = None then errlog w else errlog w @ [diagnostic])
    \<and> vm_getenv_calls (snd (current t w))
        = (if g_vm w = None then vm_getenv_calls w else Suc (vm_getenv_calls w))"
  using assms
  by (cases "g_vm w"; cases "vm_attached w t")
     (auto simp add: current_unregistered current_detached)

theorem current_not_attached_witness:
  "g_env registered_process 1 = None
   \<and> vm_attached registered_process 1 = None
   \<and> g_vm registered_process = Some 7
   \<and> fst (current 1 registered_process) = None
   \<and> vm_attached (snd (current 1 registered_process)) 1 = None
   \<and> errlog (snd (current 1 registered_process)) = [diagnostic]"
proof -
  have env: "g_env registered_process 1 = None"
    and att: "vm_attached registered_process 1 = None"
    and vm: "g_vm registered_process = Some 7"
    and log: "errlog registered_process = []"
    by (simp_all add: registered_process_def loaded_process_def fresh_process_def)
  from att have "g_vm registered_process = None \<or> vm_attached registered_process 1 = None"
    by simp
  from current_not_attached [OF env this] env att vm log show ?thesis
    by simp
qed

text \<open>The claim C2 as the spec words it fails where the virtual machine was never
  registered: the call returns null and writes no diagnostic.\<close>

theorem current_unregistered_writes_no_diagnostic:
  "g_env fresh_process 0 = None
   \<and> g_vm fresh_process = None
   \<and> fst (current 0 fresh_process) = None
   \<and> errlog (snd (current 0 fresh_process)) = []"
proof -
  have env: "g_env fresh_process 0 = None" and vm: "g_vm fresh_process = None"
    and log: "errlog fresh_process = []"
    by (simp_all add: fresh_process_def)
  from current_unregistered [OF env vm] env vm log show ?thesis
    by simp
qed

text \<open>
  C3. A thread whose slot holds a handle gets that handle from every call of
  \<open>current()\<close> and the state does not change, so no query reaches the virtual machine.
  After a call that returned a handle the slot holds it, and any number of further calls
  on that thread return the same handle and leave the state, the count of queries
  included, as it was.
\<close>

theorem current_cache_hit:
  "(g_env w t = Some e \<longrightarrow>
      current t w = (Some e, w) \<and> current_times n t w = (replicate n (Some e), w))
   \<and> (current t w = (Some e, w1) \<longrightarrow>
      g_env w1 t = Some e
      \<and> current_times n t w1 = (replicate n (Some e), w1)
      \<and> vm_getenv_calls (snd (current_times n t w1)) = vm_getenv_calls w1)"
  by (auto simp add: current_cached current_times_cached dest: current_Some_cached)

theorem current_cache_hit_witness:
  "fst (current 0 attached_process) = Some 100
   \<and> vm_getenv_calls attached_process = 0
   \<and> vm_getenv_calls (snd (current 0 attached_process)) = 1
   \<and> fst (current_times 3 0 (snd (current 0 attached_process))) = [Some 100, Some 100, Some 100]
   \<and> vm_getenv_calls (snd (current_times 3 0 (snd (current 0 attached_process)))) = 1"
proof -
  let ?w1 = "attached_process\<lparr>g_env := (g_env attached_process)(0 := Some 100),
    vm_getenv_calls := Suc (vm_getenv_calls attached_process)\<rparr>"
  have env: "g_env attached_process 0 = None" and vm: "g_vm attached_process = Some 7"
    and att: "vm_attached attached_process 0 = Some 100"
    and cnt: "vm_getenv_calls attached_process = 0"
    by (simp_all add: attached_process_def registered_process_def loaded_process_def
        fresh_process_def)
  have cur: "current 0 attached_process = (Some 100, ?w1)"
    using env vm att by (rule current_attached)
  from current_cache_hit [of attached_process 0 100 3 ?w1] cur
  have "current_times 3 0 ?w1 = (replicate 3 (Some 100), ?w1)"
    by simp
  with cur cnt show ?thesis
    by (simp add: numeral_3_eq_3)
qed

text \<open>
  C9. \<open>current()\<close> returns the null pointer exactly when the slot is empty and the
  virtual machine was never registered or does not know the thread as attached. The call
  has no other way out: the failure branch logs and goes on to the return.
\<close>

theorem current_null_iff_not_attached:
  "fst (current t w) = None
   \<longleftrightarrow> g_env w t = None \<and> (g_vm w = None \<or> vm_attached w t = None)"
  by (cases t w rule: current_cases) simp_all

theorem current_null_iff_not_attached_witness:
  "fst (current 0 fresh_process) = None
   \<and> fst (current 1 attached_process) = None
   \<and> fst (current 0 attached_process) \<noteq> None"
proof -
  have a: "g_env fresh_process 0 = None \<and> g_vm fresh_process = None"
    by (simp add: fresh_process_def)
  have b: "g_env attached_process 1 = None \<and> vm_attached attached_process 1 = None"
    by (simp add: attached_process_def registered_process_def loaded_process_def
        fresh_process_def)
  have c: "vm_attached attached_process 0 \<noteq> None \<and> g_vm attached_process \<noteq> None"
    by (simp add: attached_process_def registered_process_def loaded_process_def
        fresh_process_def)
  from current_null_iff_not_attached [of 0 fresh_process]
    current_null_iff_not_attached [of 1 attached_process]
    current_null_iff_not_attached [of 0 attached_process] a b c
  show ?thesis by simp
qed

text \<open>
  C10. When the slot of the calling thread holds a handle, \<open>current()\<close> returns it
  whatever \<open>g_vm\<close> is, null included: the result and the state do not depend on
  \<open>g_vm\<close>.
\<close>

theorem current_cached_ignores_g_vm:
  assumes "g_env w t = Some e"
  shows "current t (w\<lparr>g_vm := v\<rparr>) = (Some e, w\<lparr>g_vm := v\<rparr>)
    \<and> (g_vm w = None \<longrightarrow> current t w = (Some e, w))"
  using assms by (simp add: current_cached)

theorem current_cached_ignores_g_vm_witness:
  "g_env (fresh_process\<lparr>g_env := (\<lambda>t. if t = 0 then Some 100 else None)\<rparr>) 0 = Some 100
   \<and> g_vm (fresh_process\<lparr>g_env := (\<lambda>t. if t = 0 then Some 100 else None)\<rparr>) = None
   \<and> fst (current 0 (fresh_process\<lparr>g_env := (\<lambda>t. if t = 0 then Some 100 else None)\<rparr>))
       = Some 100
   \<and> vm_getenv_calls
        (snd (current 0 (fresh_process\<lparr>g_env := (\<lambda>t. if t = 0 then Some 100 else None)\<rparr>)))
       = 0"
proof -
  let ?w = "fresh_process\<lparr>g_env := (\<lambda>t. if t = 0 then Some 100 else None)\<rparr>"
  have env: "g_env ?w 0 = Some 100" by simp
  have vm: "g_vm ?w = None" and cnt: "vm_getenv_calls ?w = 0"
    by (simp_all add: fresh_process_def)
  from current_cached_ignores_g_vm [OF env, of None] env vm cnt show ?thesis
    by simp
qed

subsection \<open>What the operations leave alone\<close>

lemma run_closure_g_vm: "snd (run_closure c t w) = Inr w1 \<Longrightarrow> g_vm w1 = g_vm w"
proof (induction c arbitrary: w)
  case Return
  then show ?case by simp
next
  case (Update f k)
  then show ?case by fastforce
next
  case (CallCurrent k)
  from CallCurrent.prems
  have "snd (run_closure (k (fst (current t w))) t (snd (current t w))) = Inr w1"
    by (simp add: case_prod_beta)
  then have "g_vm w1 = g_vm (snd (current t w))"
    by (intro CallCurrent.IH) simp_all
  then show ?case
    by (simp add: current_frame)
next
  case (Throw x)
  then show ?case by simp
next
  case Diverge
  then show ?case by simp
qed

lemma run_closure_vm_attached:
  "snd (run_closure c t w) = Inr w1 \<Longrightarrow> vm_attached w1 = vm_attached w"
proof (induction c arbitrary: w)
  case Return
  then show ?case by simp
next
  case (Update f k)
  then show ?case by fastforce
next
  case (CallCurrent k)
  from CallCurrent.prems
  have "snd (run_closure (k (fst (current t w))) t (snd (current t w))) = Inr w1"
    by (simp add: case_prod_beta)
  then have "vm_attached w1 = vm_attached (snd (current t w))"
    by (intro CallCurrent.IH) simp_all
  then show ?case
    by (simp add: current_frame)
next
  case (Throw x)
  then show ?case by simp
next
  case Diverge
  then show ?case by simp
qed

lemma invoke_g_vm: "invoke f t w = Inr w1 \<Longrightarrow> g_vm w1 = g_vm w"
  by (cases f) (auto simp add: invoke_def dest: run_closure_g_vm)

lemma runStdFunctionImpl_g_vm: "runStdFunctionImpl ptr t w = Inr w1 \<Longrightarrow> g_vm w1 = g_vm w"
  by (auto simp add: runStdFunctionImpl_def invoke_g_vm split: option.splits)

lemma call_static_method_g_vm: "call_static_method m arg t w = Inr w1 \<Longrightarrow> g_vm w1 = g_vm w"
  by (auto simp add: call_static_method_def managed_runStdFunction_def attach_def detach_def
      split: if_splits sum.splits option.splits native_fn.splits
      dest!: runStdFunctionImpl_g_vm)

lemma runStdFunction_g_vm: "runStdFunction func t w = Inr w1 \<Longrightarrow> g_vm w1 = g_vm w"
  by (auto simp add: runStdFunction_def split: option.splits sum.splits
      dest!: call_static_method_g_vm)

lemma registerNatives_g_vm: "registerNatives cls ms w = Inr w1 \<Longrightarrow> g_vm w1 = g_vm w"
  by (induction cls ms w rule: registerNatives.induct)
     (auto split: option.splits if_splits)

lemma OnLoad_g_vm: "OnLoad w = Inr w1 \<Longrightarrow> g_vm w1 = g_vm w"
  by (auto simp add: OnLoad_def split: sum.splits dest: registerNatives_g_vm)

lemma registerVM_keeps:
  "g_vm w = Some vm \<Longrightarrow> registerVM vm' w = Inr w1 \<Longrightarrow> g_vm w1 = Some vm"
  by (auto simp add: registerVM_def split: if_splits)

lemma api_step_keeps:
  "g_vm w = Some vm \<Longrightarrow> api_step c w = Inr w1 \<Longrightarrow> g_vm w1 = Some vm"
  by (cases c)
     (auto simp add: current_frame dest: registerVM_keeps runStdFunction_g_vm OnLoad_g_vm)

lemma api_run_keeps:
  "g_vm w = Some vm \<Longrightarrow> api_run cs w = Inr w1 \<Longrightarrow> g_vm w1 = Some vm"
proof (induction cs arbitrary: w)
  case Nil
  then show ?case by simp
next
  case (Cons c cs)
  from Cons.prems(2) obtain w2 where st: "api_step c w = Inr w2"
    and rest: "api_run cs w2 = Inr w1"
    by (auto split: sum.splits)
  from Cons.prems(1) st have "g_vm w2 = Some vm" by (rule api_step_keeps)
  then show ?case using rest by (rule Cons.IH)
qed

text \<open>
  C5. Once \<open>registerVM\<close> has registered a handle, registering the same handle again
  changes nothing, registering another one fails with \<open>DoubleRegistration\<close>, and no
  run of the module's operations that completes leaves \<open>g_vm\<close> with another value.
\<close>

theorem vm_handle_stable:
  assumes "registerVM vm w0 = Inr w"
  shows "g_vm w = Some vm
    \<and> registerVM vm w = Inr w
    \<and> (vm' \<noteq> vm \<longrightarrow> registerVM vm' w = Inl DoubleRegistration)
    \<and> (api_run cs w = Inr w1 \<longrightarrow> g_vm w1 = Some vm)"
proof -
  have g: "g_vm w = Some vm"
    using assms by (auto simp add: registerVM_def split: option.splits if_splits)
  then show ?thesis
    by (auto simp add: registerVM_def dest: api_run_keeps)
qed

theorem vm_handle_stable_witness:
  "registerVM 7 loaded_process = Inr registered_process
   \<and> registerVM 7 registered_process = Inr registered_process
   \<and> registerVM 8 registered_process = Inl DoubleRegistration
   \<and> g_vm (snd (current 1 registered_process)) = Some 7"
proof -
  let ?w1 = "snd (current 1 registered_process) :: (32, nat \<times> JNIEnv option list) world"
  have first: "registerVM 7 loaded_process = Inr registered_process"
    by (simp add: registerVM_def registered_process_def loaded_process_def fresh_process_def)
  note st = vm_handle_stable [OF first, of 8 "[RegisterVM 7, Current 1]" ?w1]
  from st have again: "registerVM 7 registered_process = Inr registered_process"
    by simp
  then have "api_run [RegisterVM 7, Current 1] registered_process = Inr ?w1"
    by simp
  with st first show ?thesis
    by simp
qed

subsection \<open>The callback bridge\<close>

lemma current_resolvable:
  assumes "g_env w t \<noteq> None \<or> (g_vm w \<noteq> None \<and> vm_attached w t \<noteq> None)"
  shows "fst (current t w) \<noteq> None" and "g_env (snd (current t w)) t \<noteq> None"
  using assms by (cases t w rule: current_cases; simp)+

lemma run_closure_sees_env:
  assumes "g_env w t \<noteq> None \<or> (g_vm w \<noteq> None \<and> vm_attached w t \<noteq> None)"
  shows "None \<notin> set (fst (run_closure c t w))"
  using assms
proof (induction c arbitrary: w)
  case Return
  show ?case by simp
next
  case (Update f k)
  then show ?case by simp
next
  case (CallCurrent k)
  let ?r = "current t w"
  have a: "fst ?r \<noteq> None" and b: "g_env (snd ?r) t \<noteq> None"
    using current_resolvable [OF CallCurrent.prems] by simp_all
  have "None \<notin> set (fst (run_closure (k (fst ?r)) t (snd ?r)))"
    using b by (intro CallCurrent.IH) simp_all
  with a show ?case
    by (auto simp add: case_prod_beta)
next
  case (Throw x)
  show ?case by simp
next
  case Diverge
  show ?case by simp
qed

text \<open>A wired bridge runs the function object at \<open>func\<close> between the attachment and its
  end.\<close>

lemma runStdFunction_wired:
  fixes func :: "'p::len word"
  assumes len: "LENGTH('p) \<le> 64" and wi: "wired w" and obj: "heap w func = Some f"
  shows "runStdFunction func t w =
     map_sum (map_failure (detach (vm_attached w t = None) t)) (detach (vm_attached w t = None) t)
       (invoke f t (attach t (w\<lparr>static_method := Some dispatch_method\<rparr>)))"
proof -
  let ?w1 = "w\<lparr>static_method := Some dispatch_method\<rparr>"
  let ?tok = "ptr_to_jlong (sign_extends w) func"
  have look: "runStdFunction func t w = call_static_method dispatch_method ?tok t ?w1"
  proof (cases "static_method w")
    case None
    with wi obtain c where "vm_classes w kJavaDescriptor = Some c"
      and "(''runStdFunction'', sig_void_jlong) \<in> set (static_methods c)"
      by (auto simp add: wired_def dispatch_resolvable_def split: option.splits)
    with None show ?thesis
      by (simp add: runStdFunction_def javaClassStatic_def getStaticMethod_def
          dispatch_method_def)
  next
    case (Some m)
    with wi have m: "m = dispatch_method" by (simp add: wired_def)
    with Some have same: "?w1 = w" by simp
    have "runStdFunction func t w = call_static_method dispatch_method ?tok t w"
      using Some m by (simp add: runStdFunction_def)
    then show ?thesis
      unfolding same .
  qed
  have bound: "vm_natives (attach t ?w1) reentry_method = Some RunStdFunctionImpl"
    using wi by (simp add: wired_def attach_def)
  have hp: "heap (attach t ?w1) (jlong_to_ptr ?tok) = Some f"
    using obj len by (simp add: attach_def jlong_to_ptr_inverse)
  have "managed_runStdFunction ?tok t (attach t ?w1) = invoke f t (attach t ?w1)"
    using bound hp by (simp add: managed_runStdFunction_def runStdFunctionImpl_def)
  then show ?thesis
    unfolding look by (cases "invoke f t (attach t ?w1)") (simp_all add: call_static_method_def)
qed

lemma counting_closure_run:
  "run_closure counting_closure t w =
     ([fst (current t w)],
      Inr ((snd (current t w))\<lparr>captured :=
         (case captured w of (n, seen) \<Rightarrow> (Suc n, seen @ [fst (current t w)]))\<rparr>))"
  by (simp add: counting_closure_def case_prod_beta current_frame)

lemma throwing_closure_run:
  "run_closure throwing_closure t w =
     ([fst (current t w)],
      Inl (ClosureThrew 42 ((snd (current t w))\<lparr>captured :=
         (case captured w of (n, seen) \<Rightarrow> (Suc n, seen @ [fst (current t w)]))\<rparr>)))"
  by (simp add: throwing_closure_def case_prod_beta current_frame)

text \<open>
  C1. Let the process be initialised as the spec asks before first use (the bridge wired,
  the virtual machine registered) and let the function object at \<open>func\<close> hold the
  closure \<open>c\<close>, whatever \<open>c\<close> is. Then \<open>runStdFunction\<close> on thread \<open>t\<close>
  ends as one run of \<open>c\<close> on \<open>t\<close> ends, started with the thread attached and followed
  by the end of the attachment: it returns the state \<open>c\<close> leaves, or it throws what
  \<open>c\<close> throws in the state \<open>c\<close> had reached, or it never returns if \<open>c\<close> does not.
  So \<open>c\<close> runs once, on the calling thread, inside the call. The thread is attached
  when \<open>c\<close> starts and when it returns, and every call of \<open>current()\<close> that \<open>c\<close>
  makes returns a non-null pointer.
\<close>

theorem runStdFunction_runs_closure_once:
  fixes func :: "'p::len word"
  assumes "LENGTH('p) \<le> 64" and "wired w" and "heap w func = Some (Function c)"
    and "g_vm w \<noteq> None"
  shows "let w0 = attach t (w\<lparr>static_method := Some dispatch_method\<rparr>);
             leave = detach (vm_attached w t = None) t
         in runStdFunction func t w = map_sum (map_failure leave) leave (snd (run_closure c t w0))
          \<and> vm_attached w0 t \<noteq> None
          \<and> None \<notin> set (fst (run_closure c t w0))
          \<and> (\<forall>w1. snd (run_closure c t w0) = Inr w1 \<longrightarrow> vm_attached w1 t \<noteq> None)"
proof -
  let ?w0 = "attach t (w\<lparr>static_method := Some dispatch_method\<rparr>)"
  have att: "vm_attached ?w0 t \<noteq> None"
    by (simp add: attach_def)
  have run: "runStdFunction func t w
      = map_sum (map_failure (detach (vm_attached w t = None) t))
          (detach (vm_attached w t = None) t) (snd (run_closure c t ?w0))"
    using runStdFunction_wired [OF assms(1,2,3), of t] by (simp add: invoke_def)
  have still: "vm_attached w1 t \<noteq> None" if "snd (run_closure c t ?w0) = Inr w1" for w1
    using run_closure_vm_attached [OF that] att by simp
  from assms(4) att
  have "g_env ?w0 t \<noteq> None \<or> (g_vm ?w0 \<noteq> None \<and> vm_attached ?w0 t \<noteq> None)"
    by (auto simp add: attach_def)
  then have seen: "None \<notin> set (fst (run_closure c t ?w0))"
    by (rule run_closure_sees_env)
  show ?thesis
    using att run still seen by (simp add: Let_def)
qed

theorem runStdFunction_runs_closure_once_witness:
  "LENGTH(32) \<le> (64::nat)
   \<and> wired registered_process
   \<and> heap registered_process 0xBEEF0000 = Some (Function counting_closure)
   \<and> g_vm registered_process \<noteq> None
   \<and> vm_attached registered_process 0 = None
   \<and> map_sum id captured (runStdFunction 0xBEEF0000 0 registered_process)
       = Inr (1, [Some 100])
   \<and> wired throwing_process
   \<and> heap throwing_process 0xBEEF0000 = Some (Function throwing_closure)
   \<and> g_vm throwing_process \<noteq> None
   \<and> map_sum (map_failure captured) captured (runStdFunction 0xBEEF0000 0 throwing_process)
       = Inl (ClosureThrew 42 (1, [Some 100]))"
proof -
  let ?w0 = "attach 0 (registered_process\<lparr>static_method := Some dispatch_method\<rparr>)"
  let ?v0 = "attach 0 (throwing_process\<lparr>static_method := Some dispatch_method\<rparr>)"
  have len: "LENGTH(32) \<le> (64::nat)" by simp
  have wi: "wired registered_process"
    by (simp add: wired_def registered_process_def loaded_process_def fresh_process_def
        dispatch_resolvable_def support_class_def sig_void_jlong_def)
  have obj: "heap registered_process 0xBEEF0000 = Some (Function counting_closure)"
    by (simp add: registered_process_def loaded_process_def fresh_process_def)
  have vm: "g_vm registered_process \<noteq> None"
    and det: "vm_attached registered_process 0 = None"
    by (simp_all add: registered_process_def loaded_process_def fresh_process_def)
  have env0: "g_env ?w0 0 = None" and vm0: "g_vm ?w0 = Some 7"
    and att0: "vm_attached ?w0 0 = Some 100" and cap0: "captured ?w0 = (0, [])"
    by (simp_all add: attach_def registered_process_def loaded_process_def fresh_process_def)
  have cur: "fst (current 0 ?w0) = Some 100"
    using current_attached [OF env0 vm0 att0] by simp
  from runStdFunction_runs_closure_once [OF len wi obj vm, of 0]
  have "runStdFunction 0xBEEF0000 0 registered_process
      = map_sum (map_failure (detach (vm_attached registered_process 0 = None) 0))
          (detach (vm_attached registered_process 0 = None) 0)
          (snd (run_closure counting_closure 0 ?w0))"
    by (simp add: Let_def)
  then have returns: "map_sum id captured (runStdFunction 0xBEEF0000 0 registered_process)
      = Inr (1, [Some 100])"
    by (simp add: counting_closure_run cur cap0 detach_def)
  have wi': "wired throwing_process"
    by (simp add: wired_def throwing_process_def registered_process_def loaded_process_def
        fresh_process_def dispatch_resolvable_def support_class_def sig_void_jlong_def)
  have obj': "heap throwing_process 0xBEEF0000 = Some (Function throwing_closure)"
    by (simp add: throwing_process_def)
  have vm': "g_vm throwing_process \<noteq> None"
    by (simp add: throwing_process_def registered_process_def)
  have env1: "g_env ?v0 0 = None" and vm1: "g_vm ?v0 = Some 7"
    and att1: "vm_attached ?v0 0 = Some 100" and cap1: "captured ?v0 = (0, [])"
    by (simp_all add: attach_def throwing_process_def registered_process_def
        loaded_process_def fresh_process_def)
  have cur': "fst (current 0 ?v0) = Some 100"
    using current_attached [OF env1 vm1 att1] by simp
  from runStdFunction_runs_closure_once [OF len wi' obj' vm', of 0]
  have "runStdFunction 0xBEEF0000 0 throwing_process
      = map_sum (map_failure (detach (vm_attached throwing_process 0 = None) 0))
          (detach (vm_attached throwing_process 0 = None) 0)
          (snd (run_closure throwing_closure 0 ?v0))"
    by (simp add: Let_def)
  then have throws: "map_sum (map_failure captured) captured
        (runStdFunction 0xBEEF0000 0 throwing_process)
      = Inl (ClosureThrew 42 (1, [Some 100]))"
    by (simp add: throwing_closure_run cur' cap1 detach_def)
  from len wi obj vm det returns wi' obj' vm' throws show ?thesis
    by simp
qed

text \<open>Lines 32 and 33 on a first call whose lookup fails: whatever failure the lookup
  helpers end with is the failure of \<open>runStdFunction\<close>.\<close>

lemma runStdFunction_class_lookup_fails:
  "static_method w = None \<Longrightarrow> javaClassStatic w = Inl e \<Longrightarrow> runStdFunction func t w = Inl e"
  by (simp add: runStdFunction_def)

lemma runStdFunction_method_lookup_fails:
  "static_method w = None \<Longrightarrow> javaClassStatic w = Inr cls \<Longrightarrow>
   getStaticMethod cls ''runStdFunction'' sig_void_jlong w = Inl e \<Longrightarrow>
   runStdFunction func t w = Inl e"
  by (simp add: runStdFunction_def)

text \<open>
  C7. On the first call, with the static \<open>method\<close> unset, a class or a dispatch
  method that cannot be found ends \<open>runStdFunction\<close> with \<open>WiringFailure\<close>, and the
  call has failed fatally: it has not returned, and what ended it is no exception a
  handler could catch. The managed call of line 33 is not reached and no closure runs.
  (That the failed lookup is fatal and not thrown is the spec's word about the lookup
  helpers; line 32 itself passes on whatever ends its initialiser.)
\<close>

theorem runStdFunction_wiring_failure:
  assumes "static_method w = None" and "\<not> dispatch_resolvable w"
  shows "runStdFunction func t w = Inl WiringFailure \<and> fatal (runStdFunction func t w)"
proof -
  have "runStdFunction func t w = Inl WiringFailure"
  proof (cases "vm_classes w kJavaDescriptor")
    case None
    then have "javaClassStatic w = Inl WiringFailure"
      by (simp add: javaClassStatic_def)
    with assms(1) show ?thesis
      by (rule runStdFunction_class_lookup_fails)
  next
    case (Some c)
    then have cls: "javaClassStatic w = Inr kJavaDescriptor"
      by (simp add: javaClassStatic_def)
    from Some assms(2)
    have "getStaticMethod kJavaDescriptor ''runStdFunction'' sig_void_jlong w = Inl WiringFailure"
      by (simp add: getStaticMethod_def dispatch_resolvable_def)
    with assms(1) cls show ?thesis
      by (rule runStdFunction_method_lookup_fails)
  qed
  then show ?thesis
    by (simp add: fatal_def)
qed

theorem runStdFunction_wiring_failure_witness:
  "static_method classless_process = None
   \<and> \<not> dispatch_resolvable classless_process
   \<and> runStdFunction 0xBEEF0000 0 classless_process = Inl WiringFailure
   \<and> fatal (runStdFunction 0xBEEF0000 0 classless_process)"
proof -
  have a: "static_method classless_process = None"
    by (simp add: classless_process_def fresh_process_def)
  have b: "\<not> dispatch_resolvable classless_process"
    by (simp add: dispatch_resolvable_def classless_process_def)
  from runStdFunction_wiring_failure [OF a b, of "0xBEEF0000" 0] a b show ?thesis
    by blast
qed

text \<open>For contrast, a failure that is not fatal: in the process where nothing was
  registered for the native stub the lookup succeeds and the managed call throws.\<close>

lemma runStdFunction_unlinked_not_fatal:
  "\<not> fatal (runStdFunction 0xBEEF0000 0 fresh_process)"
proof -
  have cls: "javaClassStatic fresh_process = Inr kJavaDescriptor"
    by (simp add: javaClassStatic_def fresh_process_def)
  have met: "getStaticMethod kJavaDescriptor ''runStdFunction'' sig_void_jlong fresh_process
      = Inr dispatch_method"
    by (simp add: getStaticMethod_def fresh_process_def support_class_def sig_void_jlong_def
        dispatch_method_def)
  have sta: "static_method fresh_process = None"
    by (simp add: fresh_process_def)
  have unbound: "vm_natives (attach 0 (fresh_process\<lparr>static_method := Some dispatch_method\<rparr>))
      reentry_method = None"
    by (simp add: attach_def fresh_process_def)
  show ?thesis
    by (simp add: runStdFunction_def cls met sta call_static_method_def
        managed_runStdFunction_def unbound fatal_def)
qed

subsection \<open>Loading\<close>

lemma OnLoad_declared:
  "reentry_declared w \<Longrightarrow>
   OnLoad w = Inr (w\<lparr>vm_natives := (vm_natives w)(reentry_method := Some RunStdFunctionImpl)\<rparr>)"
  by (auto simp add: OnLoad_def reentry_declared_def javaClassStatic_def makeNativeMethod_def
      reentry_method_def split: option.splits)

lemma OnLoad_undeclared:
  "\<not> reentry_declared w \<Longrightarrow> OnLoad w = Inl WiringFailure"
  by (auto simp add: OnLoad_def reentry_declared_def javaClassStatic_def makeNativeMethod_def
      split: option.splits)

text \<open>
  C8. \<open>OnLoad\<close> binds \<open>runStdFunctionImpl\<close> to the native stub of that name and of
  the signature of its type, \<open>(J)V\<close>. When the class declares that stub the binding is
  made and nothing else changes; when it does not (another name, another signature, no
  class) the load is rejected with \<open>WiringFailure\<close>.
\<close>

theorem OnLoad_binds_or_rejects:
  "(reentry_declared w \<longrightarrow>
      OnLoad w
        = Inr (w\<lparr>vm_natives := (vm_natives w)(reentry_method := Some RunStdFunctionImpl)\<rparr>))
   \<and> (\<not> reentry_declared w \<longrightarrow> OnLoad w = Inl WiringFailure)"
  by (simp add: OnLoad_declared OnLoad_undeclared)

theorem OnLoad_binds_or_rejects_witness:
  "OnLoad fresh_process = Inr loaded_process
   \<and> OnLoad wrong_signature_process = Inl WiringFailure
   \<and> OnLoad wrong_name_process = Inl WiringFailure
   \<and> OnLoad classless_process = Inl WiringFailure"
proof -
  have a: "reentry_declared fresh_process"
    by (simp add: reentry_declared_def fresh_process_def support_class_def sig_void_jlong_def)
  have b: "\<not> reentry_declared wrong_signature_process"
    by (simp add: reentry_declared_def wrong_signature_process_def fresh_process_def
        support_class_def sig_void_jlong_def)
  have c: "\<not> reentry_declared wrong_name_process"
    by (simp add: reentry_declared_def wrong_name_process_def fresh_process_def
        support_class_def sig_void_jlong_def)
  have d: "\<not> reentry_declared classless_process"
    by (simp add: reentry_declared_def classless_process_def)
  have e: "fresh_process\<lparr>vm_natives :=
        (vm_natives fresh_process)(reentry_method := Some RunStdFunctionImpl)\<rparr>
      = loaded_process"
    by (simp add: loaded_process_def fresh_process_def fun_upd_def)
  from OnLoad_binds_or_rejects [of fresh_process]
    OnLoad_binds_or_rejects [of wrong_signature_process]
    OnLoad_binds_or_rejects [of wrong_name_process]
    OnLoad_binds_or_rejects [of classless_process] a b c d e
  show ?thesis by simp
qed

end
